theory Spec2Isabelle
  imports Main
begin

section \<open>Python values\<close>

text \<open>
  The policy handed to \<open>validate_policy\<close> is an arbitrary Python value, in practice the
  result of decoding a JSON document. A dictionary key is any hashable value: \<open>None\<close>, an
  integer (a bool used as a key is the integer it equals), a string, a tuple of keys, or
  another hashable value that is not a tuple and equals no key of those forms (a float
  that is no integer, bytes, a frozenset), which \<open>KOpaque\<close> tags by its printed form.
  A dictionary is kept as an association list in insertion order, which is the order
  \<open>items()\<close> iterates in, and \<open>d[k]\<close> is \<open>map_of d k\<close>. A list that stands for a
  dictionary has pairwise distinct keys.
  \<open>POpaque\<close> stands for any other value that is neither a dict nor a list and has no
  \<open>items\<close> attribute (a float, a tuple, bytes), tagged by its printed form.
\<close>

datatype pykey =
    KNone
  | KInt int
  | KStr string
  | KOpaque string
  | KTuple "pykey list"

datatype pyval =
    PNone
  | PBool bool
  | PInt int
  | PStr string
  | POpaque string
  | PList "pyval list"
  | PDict "(pykey \<times> pyval) list"

type_synonym pydict = "(pykey \<times> pyval) list"

fun isinstance_dict :: "pyval \<Rightarrow> bool" where
  "isinstance_dict (PDict d) = True"
| "isinstance_dict v = False"

fun isinstance_list :: "pyval \<Rightarrow> bool" where
  "isinstance_list (PList xs) = True"
| "isinstance_list v = False"

fun isinstance_str :: "pykey \<Rightarrow> bool" where
  "isinstance_str (KStr s) = True"
| "isinstance_str k = False"

fun isinstance_tuple :: "pykey \<Rightarrow> bool" where
  "isinstance_tuple (KTuple ks) = True"
| "isinstance_tuple k = False"

text \<open>\<open>k in d\<close> for a dictionary \<open>d\<close>.\<close>

definition key_in :: "pykey \<Rightarrow> pydict \<Rightarrow> bool" where
  "key_in k d = (case map_of d k of None \<Rightarrow> False | Some v \<Rightarrow> True)"

section \<open>Exceptions\<close>

text \<open>
  A \<open>ValidationError\<close> carries its message. The message is kept as the template of the
  source together with the values formatted into it; a full section name such as
  \<open>resources.*\<close> or \<open>resources.<policy_id>.<subsection_name>\<close> is kept as the list of its
  dot-separated components.
\<close>

datatype message =
    PolicyMustBeObject
  | PolicyMissingResources
  | ResourcesMustBeObject
  | ResourcesMustNotBeEmpty
  | NotValidPolicyId pykey
  | NameMustBeString pykey pykey
  | SectionMustBeObject "pykey list"
  | SectionMustHaveRules "pykey list"
  | AllowMustBeList "pykey list"
  | BlockMustBeList "pykey list"

datatype error =
    ValidationError message
  | NotImplementedError
  | AttributeError
  | TypeError
  | KeyError
  | DatabaseError

fun is_ValidationError :: "error + unit \<Rightarrow> bool" where
  "is_ValidationError (Inl (ValidationError m)) = True"
| "is_ValidationError r = False"

section \<open>The resource tree\<close>

text \<open>
  A resource has a \<open>policy_id\<close> attribute or not (\<open>hasattr\<close>), and two lists of child
  resources. The tree is finite: a resource is never its own descendant.
\<close>

datatype resource =
  Resource (policy_id: "pykey option")
           (list_child_resources: "resource list")
           (item_child_resources: "resource list")

text \<open>
  \<open>_get_valid_policy_ids(resource, result)\<close> adds to the set \<open>result\<close>, which every
  recursive call shares; the model passes the set through the calls.
\<close>

fun get_valid_policy_ids :: "resource \<Rightarrow> pykey set \<Rightarrow> pykey set" where
  "get_valid_policy_ids (Resource pid list_children item_children) result =
     fold get_valid_policy_ids item_children
       (fold get_valid_policy_ids list_children
          (case pid of None \<Rightarrow> result | Some p \<Rightarrow> insert p result))"

section \<open>Policy validation\<close>

text \<open>
  \<open>get_root_resource\<close> is a class method without arguments; a token class is given by
  what the call does: it raises, or it returns the root of the resource tree.
  \<open>BaseWebAPIToken\<close> itself raises \<open>NotImplementedError\<close>.
\<close>

definition get_root_resource :: "error + resource" where
  "get_root_resource = Inl NotImplementedError"

definition validate_policy_section :: "pydict \<Rightarrow> pykey \<Rightarrow> pykey list \<Rightarrow> error + unit" where
  "validate_policy_section parent_section section_name full_section_name =
     (case map_of parent_section section_name of
        None \<Rightarrow> Inl KeyError
      | Some section \<Rightarrow>
          (case section of
             PDict d \<Rightarrow>
               if \<not> key_in (KStr ''allow'') d \<and> \<not> key_in (KStr ''block'') d then
                 Inl (ValidationError (SectionMustHaveRules full_section_name))
               else if (case map_of d (KStr ''allow'') of
                          None \<Rightarrow> False | Some a \<Rightarrow> \<not> isinstance_list a) then
                 Inl (ValidationError (AllowMustBeList full_section_name))
               else if (case map_of d (KStr ''block'') of
                          None \<Rightarrow> False | Some b \<Rightarrow> \<not> isinstance_list b) then
                 Inl (ValidationError (BlockMustBeList full_section_name))
               else Inr ()
           | other \<Rightarrow> Inl (ValidationError (SectionMustBeObject full_section_name))))"

text \<open>
  The inner loop of \<open>validate_policy\<close> over \<open>section.items()\<close>, for the resource policy
  \<open>section\<close> stored under the key \<open>policy_id'\<close>.
\<close>

fun validate_subsections :: "pykey \<Rightarrow> pydict \<Rightarrow> (pykey \<times> pyval) list \<Rightarrow> error + unit" where
  "validate_subsections policy_id' section [] = Inr ()"
| "validate_subsections policy_id' section ((subsection_name, subsection) # items) =
     (if \<not> isinstance_str subsection_name then
        Inl (ValidationError (NameMustBeString subsection_name policy_id'))
      else
        (case validate_policy_section section subsection_name
                [KStr ''resources'', policy_id', subsection_name] of
           Inl e \<Rightarrow> Inl e
         | Inr u \<Rightarrow> validate_subsections policy_id' section items))"

text \<open>
  The message \<open>'"%s" is not a valid resource policy ID.' % policy_id\<close>. The right operand
  of \<open>%\<close> is the key itself, so a key that is a tuple is taken as the tuple of the values
  to format: a tuple of one element has its element formatted, and a tuple of any other
  length raises \<open>TypeError\<close>, the template having one \<open>%s\<close>.
\<close>

fun not_valid_policy_id_message :: "pykey \<Rightarrow> error + message" where
  "not_valid_policy_id_message (KTuple [k]) = Inr (NotValidPolicyId k)"
| "not_valid_policy_id_message (KTuple ks) = Inl TypeError"
| "not_valid_policy_id_message k = Inr (NotValidPolicyId k)"

text \<open>
  The outer loop over \<open>resource_policies\<close>. \<open>section.items()\<close> on a value that is not a
  dict raises \<open>AttributeError\<close>.
\<close>

fun validate_resource_policies :: "pykey set \<Rightarrow> (pykey \<times> pyval) list \<Rightarrow> error + unit" where
  "validate_resource_policies valid_policy_ids [] = Inr ()"
| "validate_resource_policies valid_policy_ids ((policy_id', section) # rest) =
     (if policy_id' \<notin> valid_policy_ids then
        (case not_valid_policy_id_message policy_id' of
           Inl e \<Rightarrow> Inl e
         | Inr m \<Rightarrow> Inl (ValidationError m))
      else
        (case section of
           PDict d \<Rightarrow>
             (case validate_subsections policy_id' d d of
                Inl e \<Rightarrow> Inl e
              | Inr u \<Rightarrow> validate_resource_policies valid_policy_ids rest)
         | other \<Rightarrow> Inl AttributeError))"

text \<open>
  The list \<open>resource_policies\<close>: the items of the \<open>resources\<close> section other than the one
  under \<open>*\<close>, in order.
\<close>

definition resource_policies_of :: "pydict \<Rightarrow> (pykey \<times> pyval) list" where
  "resource_policies_of resources_section =
     filter (\<lambda>(section_name, section). section_name \<noteq> KStr ''*'') resources_section"

text \<open>
  The body of \<open>validate_policy\<close> from the emptiness check of \<open>resources_section\<close> on.
\<close>

definition validate_resources :: "(error + resource) \<Rightarrow> pydict \<Rightarrow> error + unit" where
  "validate_resources root_resource resources_section =
     (if resources_section = [] then Inl (ValidationError ResourcesMustNotBeEmpty)
      else
        (case (if key_in (KStr ''*'') resources_section
               then validate_policy_section resources_section (KStr ''*'')
                      [KStr ''resources'', KStr ''*'']
               else Inr ()) of
           Inl e \<Rightarrow> Inl e
         | Inr u \<Rightarrow>
             (let resource_policies = resource_policies_of resources_section in
              if resource_policies \<noteq> [] then
                (case root_resource of
                   Inl e \<Rightarrow> Inl e
                 | Inr root \<Rightarrow>
                     validate_resource_policies (get_valid_policy_ids root {})
                       resource_policies)
              else Inr ())))"

text \<open>
  \<open>validate_policy cls policy\<close>, with the class \<open>cls\<close> given by the outcome of its
  \<open>get_root_resource()\<close>. \<open>Inr ()\<close> is a normal return.
\<close>

fun validate_policy :: "(error + resource) \<Rightarrow> pyval \<Rightarrow> error + unit" where
  "validate_policy root_resource (PDict pol) =
     (if pol = [] then Inr ()
      else
        (case map_of pol (KStr ''resources'') of
           None \<Rightarrow> Inl (ValidationError PolicyMissingResources)
         | Some (PDict resources_section) \<Rightarrow> validate_resources root_resource resources_section
         | Some other \<Rightarrow> Inl (ValidationError ResourcesMustBeObject)))"
| "validate_policy root_resource other = Inl (ValidationError PolicyMustBeObject)"

section \<open>Web API errors\<close>

text \<open>
  The \<open>headers\<close> of a \<open>WebAPIError\<close> are a dict or a callable computing one from the
  request.
\<close>

datatype headers_value =
    HeadersDict "(string \<times> string) list"
  | HeadersCallable string

record WebAPIError =
  code :: int
  msg :: string
  http_status :: int
  headers :: headers_value

text \<open>
  Error objects live in a heap, a list of objects addressed by position, so that the new
  object and the receiver can be told apart. Creating an object appends it.
\<close>

type_synonym heap = "WebAPIError list"

definition WebAPIError_init :: "int \<Rightarrow> string \<Rightarrow> int \<Rightarrow> headers_value \<Rightarrow> WebAPIError" where
  "WebAPIError_init code' msg' http_status' headers' =
     \<lparr>code = code', msg = msg', http_status = http_status', headers = headers'\<rparr>"

definition new_WebAPIError :: "heap \<Rightarrow> WebAPIError \<Rightarrow> heap \<times> nat" where
  "new_WebAPIError h obj = (h @ [obj], length h)"

text \<open>
  \<open>msg or self.msg\<close>: the argument \<open>msg\<close> is \<open>None\<close> or a string, and is falsy when it is
  \<open>None\<close> or empty.
\<close>

definition msg_or :: "string option \<Rightarrow> string \<Rightarrow> string" where
  "msg_or msg' self_msg =
     (case msg' of None \<Rightarrow> self_msg | Some m \<Rightarrow> if m = [] then self_msg else m)"

text \<open>\<open>self\<close> is the address of a live object: \<open>self < length h\<close>.\<close>

definition with_overrides ::
  "heap \<Rightarrow> nat \<Rightarrow> string option \<Rightarrow> headers_value option \<Rightarrow> heap \<times> nat" where
  "with_overrides h self msg' headers' =
     (let headers'' = (case headers' of None \<Rightarrow> headers (h ! self) | Some hs \<Rightarrow> hs)
      in new_WebAPIError h
           (WebAPIError_init (code (h ! self)) (msg_or msg' (msg (h ! self)))
              (http_status (h ! self)) headers''))"

definition with_message :: "heap \<Rightarrow> nat \<Rightarrow> string option \<Rightarrow> heap \<times> nat" where
  "with_message h self msg' = with_overrides h self msg' None"

section \<open>Tokens\<close>

text \<open>
  Two instances of a saved Django model are equal when their primary keys are. The token
  record holds the fields the methods below read; times are counted in microseconds.
\<close>

record User =
  user_id :: nat
  is_superuser :: bool

definition user_eq :: "User \<Rightarrow> User \<Rightarrow> bool" where
  "user_eq a b = (user_id a = user_id b)"

record BaseWebAPIToken =
  pk :: "nat option"
  user :: User
  token :: string
  expires :: "int option"
  valid :: bool

definition is_accessible_by :: "BaseWebAPIToken \<Rightarrow> User \<Rightarrow> bool" where
  "is_accessible_by self user' = (is_superuser user' \<or> user_eq (user self) user')"

definition is_mutable_by :: "BaseWebAPIToken \<Rightarrow> User \<Rightarrow> bool" where
  "is_mutable_by self user' = (is_superuser user' \<or> user_eq (user self) user')"

definition is_deletable_by :: "BaseWebAPIToken \<Rightarrow> User \<Rightarrow> bool" where
  "is_deletable_by self user' = (is_superuser user' \<or> user_eq (user self) user')"

text \<open>\<open>is_expired\<close> reads the clock; the reading \<open>now\<close> is an argument.\<close>

definition is_expired :: "int \<Rightarrow> BaseWebAPIToken \<Rightarrow> bool" where
  "is_expired now self = (case expires self of None \<Rightarrow> False | Some e \<Rightarrow> e \<le> now)"

text \<open>
  \<open>save\<close> calls the model's \<open>save\<close> of the superclass, which raises or returns with the
  instance updated (a new instance has its primary key assigned), and then may send the
  signal \<open>webapi_token_updated\<close>. The calls made are logged in order.
\<close>

datatype effect =
    SuperSave BaseWebAPIToken
  | WebapiTokenUpdatedSend BaseWebAPIToken

definition save ::
  "(BaseWebAPIToken \<Rightarrow> error + BaseWebAPIToken) \<Rightarrow> BaseWebAPIToken
     \<Rightarrow> effect list \<times> (error + BaseWebAPIToken)" where
  "save super_save self =
     (let is_new = (pk self = None) in
      case super_save self of
        Inl e \<Rightarrow> ([], Inl e)
      | Inr self' \<Rightarrow>
          if \<not> is_new then ([SuperSave self', WebapiTokenUpdatedSend self'], Inr self')
          else ([SuperSave self'], Inr self'))"

section \<open>The stated properties, as definitions\<close>

text \<open>
  The shape a policy section is required to have: a dict with an \<open>allow\<close> key, a
  \<open>block\<close> key or both, where each of the two that is present holds a list.
\<close>

fun spec_section_passes :: "pyval \<Rightarrow> bool" where
  "spec_section_passes (PDict d) =
     ((key_in (KStr ''allow'') d \<or> key_in (KStr ''block'') d)
      \<and> (case map_of d (KStr ''allow'') of None \<Rightarrow> True | Some a \<Rightarrow> isinstance_list a)
      \<and> (case map_of d (KStr ''block'') of None \<Rightarrow> True | Some b \<Rightarrow> isinstance_list b))"
| "spec_section_passes other = False"

text \<open>
  The resources reachable from a root by following \<open>list_child_resources\<close> and
  \<open>item_child_resources\<close> any number of times, and the policy IDs found on them.
\<close>

inductive reachable :: "resource \<Rightarrow> resource \<Rightarrow> bool" for root :: resource where
  root: "reachable root root"
| list_child: "reachable root r \<Longrightarrow> c \<in> set (list_child_resources r) \<Longrightarrow> reachable root c"
| item_child: "reachable root r \<Longrightarrow> c \<in> set (item_child_resources r) \<Longrightarrow> reachable root c"

code_pred reachable .

definition spec_valid_policy_ids :: "resource \<Rightarrow> pykey set" where
  "spec_valid_policy_ids root = {p. \<exists>r. reachable root r \<and> policy_id r = Some p}"

text \<open>
  The inputs on which the loop over the resource policies applies each operation to a
  value of the type it is written for: every resource policy stored under a valid policy
  ID is a dict, so that \<open>section.items()\<close> is defined, and every other key of the
  \<open>resources\<close> section besides \<open>*\<close> is not a tuple of a length other than one, so that
  the key can be formatted into the message. Nothing is asked when \<open>get_root_resource\<close>
  raises, the loop not being entered then.
\<close>

fun resource_policies_typed :: "(error + resource) \<Rightarrow> pyval \<Rightarrow> bool" where
  "resource_policies_typed (Inr root) (PDict pol) =
     (case map_of pol (KStr ''resources'') of
        Some (PDict resources_section) \<Rightarrow>
          list_all
            (\<lambda>(policy_id', section).
               if policy_id' \<in> get_valid_policy_ids root {} then isinstance_dict section
               else (case policy_id' of KTuple ks \<Rightarrow> length ks = 1 | other \<Rightarrow> True))
            (resource_policies_of resources_section)
      | other \<Rightarrow> True)"
| "resource_policies_typed root_resource other = True"

section \<open>Example values\<close>

definition example_root :: resource where
  "example_root =
     Resource None
       [Resource (Some (KStr ''good'')) [] [Resource (Some (KStr ''item'')) [] []]]
       [Resource None [] []]"

definition example_accepted_policy :: pyval where
  "example_accepted_policy =
     PDict [(KStr ''resources'',
       PDict [(KStr ''*'', PDict [(KStr ''allow'', PList [PStr ''*''])]),
              (KStr ''good'', PDict [(KStr ''GET'', PDict [(KStr ''block'', PList [])])])])]"

definition example_resources_section :: pydict where
  "example_resources_section =
     [(KStr ''*'', PDict [(KStr ''allow'', PList [PStr ''*''])]),
      (KStr ''good'', PDict [(KStr ''GET'', PDict [(KStr ''block'', PList [])])]),
      (KStr ''bad'', PDict []),
      (KStr ''worse'', PInt 0)]"

definition example_token :: BaseWebAPIToken where
  "example_token =
     \<lparr>pk = Some 7, user = \<lparr>user_id = 3, is_superuser = False\<rparr>, token = ''abc'',
      expires = Some 100, valid = True\<rparr>"

definition example_super_save :: "BaseWebAPIToken \<Rightarrow> error + BaseWebAPIToken" where
  "example_super_save t =
     Inr (t\<lparr>pk := Some (case pk t of None \<Rightarrow> 1 | Some k \<Rightarrow> k)\<rparr>)"

definition example_heap :: heap where
  "example_heap =
     [\<lparr>code = 107, msg = ''There was a problem enabling the extension'',
       http_status = 500, headers = HeadersDict []\<rparr>]"

section \<open>The shape of a policy section\<close>

lemma section_returns_iff:
  assumes "map_of parent_section section_name = Some section"
  shows "(validate_policy_section parent_section section_name full_section_name = Inr ())
           = spec_section_passes section"
  using assms
  by (cases "section")
     (auto simp: validate_policy_section_def key_in_def split: option.splits)

lemma section_returns_or_ValidationError:
  assumes "map_of parent_section section_name = Some section"
  shows "validate_policy_section parent_section section_name full_section_name = Inr ()
         \<or> is_ValidationError
              (validate_policy_section parent_section section_name full_section_name)"
  using assms
  by (cases "section")
     (auto simp: validate_policy_section_def key_in_def split: option.splits)

lemma subsections_accepted:
  assumes "validate_subsections policy_id' section items = Inr ()"
    and "(n, s) \<in> set items"
  shows "isinstance_str n \<and>
         validate_policy_section section n [KStr ''resources'', policy_id', n] = Inr ()"
  using assms
proof (induction items)
  case Nil
  then show ?case by simp
next
  case (Cons item items)
  obtain n' s' where item: "item = (n', s')" by (cases item)
  from Cons.prems(1) item have str: "isinstance_str n'"
    by (auto split: if_splits)
  with Cons.prems(1) item
  have here: "validate_policy_section section n' [KStr ''resources'', policy_id', n'] = Inr ()"
    and rest: "validate_subsections policy_id' section items = Inr ()"
    by (auto split: sum.splits)
  show ?case
  proof (cases "(n, s) = item")
    case True
    with item str here show ?thesis by simp
  next
    case False
    with Cons.prems(2) have "(n, s) \<in> set items" by simp
    with Cons.IH rest show ?thesis by simp
  qed
qed

lemma resource_policies_accepted:
  assumes "validate_resource_policies valid_policy_ids rps = Inr ()"
    and "(k, section) \<in> set rps"
  shows "k \<in> valid_policy_ids \<and>
         (\<exists>d. section = PDict d \<and> validate_subsections k d d = Inr ())"
  using assms
proof (induction rps)
  case Nil
  then show ?case by simp
next
  case (Cons rp rps)
  obtain k' sec' where rp: "rp = (k', sec')" by (cases rp)
  from Cons.prems(1) rp have valid: "k' \<in> valid_policy_ids"
    by (auto split: if_splits sum.splits)
  with Cons.prems(1) rp obtain d' where d': "sec' = PDict d'"
    by (cases sec') auto
  with Cons.prems(1) rp valid
  have here: "validate_subsections k' d' d' = Inr ()"
    and rest: "validate_resource_policies valid_policy_ids rps = Inr ()"
    by (auto split: sum.splits)
  show ?case
  proof (cases "(k, section) = rp")
    case True
    with rp valid d' here show ?thesis by simp
  next
    case False
    with Cons.prems(2) have "(k, section) \<in> set rps" by simp
    with Cons.IH rest show ?thesis by simp
  qed
qed

lemma resources_accepted:
  assumes "validate_resources root_resource resources_section = Inr ()"
  shows "(key_in (KStr ''*'') resources_section \<longrightarrow>
            validate_policy_section resources_section (KStr ''*'')
              [KStr ''resources'', KStr ''*''] = Inr ())
         \<and> (resource_policies_of resources_section = [] \<or>
             (\<exists>root. root_resource = Inr root \<and>
                validate_resource_policies (get_valid_policy_ids root {})
                  (resource_policies_of resources_section) = Inr ()))"
  using assms
  by (auto simp: validate_resources_def Let_def split: if_splits sum.splits)

lemma policy_accepted:
  assumes "validate_policy root_resource (PDict pol) = Inr ()"
    and "map_of pol (KStr ''resources'') = Some (PDict resources_section)"
  shows "validate_resources root_resource resources_section = Inr ()"
proof -
  from assms(2) have "pol \<noteq> []" by auto
  with assms show ?thesis by simp
qed

lemma policy_with_resources:
  assumes "map_of pol (KStr ''resources'') = Some (PDict resources_section)"
  shows "validate_policy root_resource (PDict pol)
           = validate_resources root_resource resources_section"
proof -
  from assms have "pol \<noteq> []" by auto
  with assms show ?thesis by simp
qed

lemma subsections_first_malformed:
  assumes "validate_subsections policy_id' d before = Inr ()"
    and "isinstance_str n"
    and "map_of d n = Some s"
    and "\<not> spec_section_passes s"
  shows "is_ValidationError (validate_subsections policy_id' d (before @ (n, s0) # after))"
  using assms(1)
proof (induction before)
  case Nil
  from assms(3,4)
  have "validate_policy_section d n [KStr ''resources'', policy_id', n] \<noteq> Inr ()"
    by (simp add: section_returns_iff)
  with section_returns_or_ValidationError [OF assms(3), of "[KStr ''resources'', policy_id', n]"]
  obtain m where "validate_policy_section d n [KStr ''resources'', policy_id', n]
      = Inl (ValidationError m)"
    by (auto elim: is_ValidationError.elims)
  with assms(2) show ?case by simp
next
  case (Cons item before)
  obtain n' s' where item: "item = (n', s')" by (cases item)
  from Cons.prems item have str: "isinstance_str n'"
    by (auto split: if_splits)
  with Cons.prems item
  have here: "validate_policy_section d n' [KStr ''resources'', policy_id', n'] = Inr ()"
    and rest: "validate_subsections policy_id' d before = Inr ()"
    by (auto split: sum.splits)
  from Cons.IH [OF rest] item str here show ?case by simp
qed

lemma resource_policies_first_failure:
  assumes "validate_resource_policies valid_policy_ids before = Inr ()"
    and "policy_id' \<in> valid_policy_ids"
    and "validate_subsections policy_id' d d = Inl e"
  shows "validate_resource_policies valid_policy_ids (before @ (policy_id', PDict d) # after)
           = Inl e"
  using assms(1)
proof (induction before)
  case Nil
  from assms(2,3) show ?case by simp
next
  case (Cons rp before)
  obtain k sec where rp: "rp = (k, sec)" by (cases rp)
  from Cons.prems rp have valid: "k \<in> valid_policy_ids"
    by (auto split: if_splits sum.splits)
  with Cons.prems rp obtain d' where d': "sec = PDict d'"
    by (cases sec) auto
  with Cons.prems rp valid
  have here: "validate_subsections k d' d' = Inr ()"
    and rest: "validate_resource_policies valid_policy_ids before = Inr ()"
    by (auto split: sum.splits)
  from Cons.IH [OF rest] rp valid d' here show ?case by simp
qed

lemma resources_loop_result:
  assumes "key_in (KStr ''*'') resources_section \<longrightarrow>
             validate_policy_section resources_section (KStr ''*'')
               [KStr ''resources'', KStr ''*''] = Inr ()"
    and "resource_policies_of resources_section \<noteq> []"
  shows "validate_resources (Inr root) resources_section
           = validate_resource_policies (get_valid_policy_ids root {})
               (resource_policies_of resources_section)"
proof -
  from assms(2) have ne: "resources_section \<noteq> []"
    by (auto simp: resource_policies_of_def)
  from assms(1) have star: "(if key_in (KStr ''*'') resources_section
       then validate_policy_section resources_section (KStr ''*'')
              [KStr ''resources'', KStr ''*'']
       else Inr ()) = Inr ()"
    by auto
  show ?thesis
    unfolding validate_resources_def star using ne assms(2) by simp
qed

lemma reached_malformed_subsection:
  assumes res: "map_of pol (KStr ''resources'') = Some (PDict resources_section)"
    and star: "key_in (KStr ''*'') resources_section \<longrightarrow>
             validate_policy_section resources_section (KStr ''*'')
               [KStr ''resources'', KStr ''*''] = Inr ()"
    and rps: "resource_policies_of resources_section
                = earlier @ (policy_id', PDict (before @ (n, s) # after)) # later"
    and earlier: "validate_resource_policies (get_valid_policy_ids root {}) earlier = Inr ()"
    and valid: "policy_id' \<in> get_valid_policy_ids root {}"
    and before: "validate_subsections policy_id' (before @ (n, s) # after) before = Inr ()"
    and str: "isinstance_str n"
    and lookup: "map_of (before @ (n, s) # after) n = Some s"
    and bad: "\<not> spec_section_passes s"
  shows "is_ValidationError (validate_policy (Inr root) (PDict pol))"
proof -
  let ?d = "before @ (n, s) # after"
  from subsections_first_malformed [OF before str lookup bad, of s after]
  obtain m where "validate_subsections policy_id' ?d ?d = Inl (ValidationError m)"
    by (auto elim: is_ValidationError.elims)
  from resource_policies_first_failure [OF earlier valid this]
  have loop: "validate_resource_policies (get_valid_policy_ids root {})
          (resource_policies_of resources_section) = Inl (ValidationError m)"
    by (simp only: rps)
  from rps have named: "resource_policies_of resources_section \<noteq> []" by simp
  from loop have "validate_resources (Inr root) resources_section
      = Inl (ValidationError m)"
    by (simp only: resources_loop_result [OF star named])
  then show ?thesis
    by (simp only: policy_with_resources [OF res] is_ValidationError.simps)
qed

text \<open>
  C1: every policy section that validation reaches is checked by
  \<open>validate_policy_section\<close>, which raises \<open>ValidationError\<close> unless the section is a
  dict with an \<open>allow\<close> key, a \<open>block\<close> key or both, each of them holding a list when
  present, and returns normally otherwise. For the \<open>*\<close> entry of the \<open>resources\<close>
  section a section of another shape makes \<open>validate_policy\<close> raise \<open>ValidationError\<close>,
  and in a policy that \<open>validate_policy\<close> accepts every subsection of every resource
  policy has that shape. A subsection of another shape makes \<open>validate_policy\<close> raise
  \<open>ValidationError\<close> when validation reaches it: when \<open>get_root_resource\<close> returns a
  root, the \<open>*\<close> section passes if there is one, the resource policies before its own
  pass, its own key is a valid policy ID, and the subsections before it pass.
\<close>

theorem validate_policy_section_shape:
  "(map_of parent_section section_name = Some section' \<longrightarrow>
      (spec_section_passes section' \<longrightarrow>
         validate_policy_section parent_section section_name full_section_name = Inr ())
      \<and> (\<not> spec_section_passes section' \<longrightarrow>
           is_ValidationError
             (validate_policy_section parent_section section_name full_section_name)))
   \<and> (map_of pol (KStr ''resources'') = Some (PDict resources_section)
        \<and> map_of resources_section (KStr ''*'') = Some star
        \<and> \<not> spec_section_passes star \<longrightarrow>
      is_ValidationError (validate_policy root_resource (PDict pol)))
   \<and> (map_of pol (KStr ''resources'') = Some (PDict resources_section)
        \<and> validate_policy root_resource (PDict pol) = Inr ()
        \<and> (policy_id', PDict d) \<in> set resources_section \<and> policy_id' \<noteq> KStr ''*''
        \<and> map_of d subsection_name = Some subsection' \<longrightarrow>
      spec_section_passes subsection')
   \<and> (map_of pol (KStr ''resources'') = Some (PDict resources_section)
        \<and> (key_in (KStr ''*'') resources_section \<longrightarrow>
             validate_policy_section resources_section (KStr ''*'')
               [KStr ''resources'', KStr ''*''] = Inr ())
        \<and> resource_policies_of resources_section
            = earlier @ (policy_id', PDict (before @ (n, s) # after)) # later
        \<and> validate_resource_policies (get_valid_policy_ids root {}) earlier = Inr ()
        \<and> policy_id' \<in> get_valid_policy_ids root {}
        \<and> validate_subsections policy_id' (before @ (n, s) # after) before = Inr ()
        \<and> isinstance_str n
        \<and> map_of (before @ (n, s) # after) n = Some s
        \<and> \<not> spec_section_passes s \<longrightarrow>
      is_ValidationError (validate_policy (Inr root) (PDict pol)))"
proof (intro conjI impI)
  assume "map_of parent_section section_name = Some section'"
    and "spec_section_passes section'"
  then show "validate_policy_section parent_section section_name full_section_name = Inr ()"
    by (simp add: section_returns_iff)
next
  assume a: "map_of parent_section section_name = Some section'"
    and "\<not> spec_section_passes section'"
  then have "validate_policy_section parent_section section_name full_section_name \<noteq> Inr ()"
    by (simp add: section_returns_iff)
  with section_returns_or_ValidationError [OF a, of full_section_name]
  show "is_ValidationError
          (validate_policy_section parent_section section_name full_section_name)"
    by blast
next
  assume a: "map_of pol (KStr ''resources'') = Some (PDict resources_section)
        \<and> map_of resources_section (KStr ''*'') = Some star
        \<and> \<not> spec_section_passes star"
  then have star: "map_of resources_section (KStr ''*'') = Some star" by simp
  then have ne: "resources_section \<noteq> []" and kin: "key_in (KStr ''*'') resources_section"
    by (auto simp: key_in_def)
  from a star
  have "validate_policy_section resources_section (KStr ''*'')
          [KStr ''resources'', KStr ''*''] \<noteq> Inr ()"
    by (simp add: section_returns_iff)
  with section_returns_or_ValidationError [OF star, of "[KStr ''resources'', KStr ''*'']"]
  have "is_ValidationError (validate_policy_section resources_section (KStr ''*'')
          [KStr ''resources'', KStr ''*''])"
    by blast
  then obtain m where "validate_policy_section resources_section (KStr ''*'')
          [KStr ''resources'', KStr ''*''] = Inl (ValidationError m)"
    by (auto elim: is_ValidationError.elims)
  with ne kin have "validate_resources root_resource resources_section
      = Inl (ValidationError m)"
    by (simp add: validate_resources_def)
  moreover from a have "validate_policy root_resource (PDict pol)
      = validate_resources root_resource resources_section"
    by (intro policy_with_resources) simp
  ultimately show "is_ValidationError (validate_policy root_resource (PDict pol))"
    by (simp only: is_ValidationError.simps)
next
  assume a: "map_of pol (KStr ''resources'') = Some (PDict resources_section)
        \<and> validate_policy root_resource (PDict pol) = Inr ()
        \<and> (policy_id', PDict d) \<in> set resources_section \<and> policy_id' \<noteq> KStr ''*''
        \<and> map_of d subsection_name = Some subsection'"
  with policy_accepted [of root_resource pol resources_section]
  have acc: "validate_resources root_resource resources_section = Inr ()"
    by blast
  from a have mem: "(policy_id', PDict d) \<in> set (resource_policies_of resources_section)"
    by (simp add: resource_policies_of_def)
  then have "resource_policies_of resources_section \<noteq> []" by auto
  with resources_accepted [OF acc] obtain root
    where "validate_resource_policies (get_valid_policy_ids root {})
             (resource_policies_of resources_section) = Inr ()"
    by blast
  from resource_policies_accepted [OF this mem]
  have subs: "validate_subsections policy_id' d d = Inr ()" by simp
  from a have sub: "map_of d subsection_name = Some subsection'" by simp
  then have "(subsection_name, subsection') \<in> set d" by (rule map_of_SomeD)
  from subsections_accepted [OF subs this]
  have "validate_policy_section d subsection_name
          [KStr ''resources'', policy_id', subsection_name] = Inr ()"
    by simp
  with sub show "spec_section_passes subsection'"
    by (simp add: section_returns_iff)
next
  assume a: "map_of pol (KStr ''resources'') = Some (PDict resources_section)
        \<and> (key_in (KStr ''*'') resources_section \<longrightarrow>
             validate_policy_section resources_section (KStr ''*'')
               [KStr ''resources'', KStr ''*''] = Inr ())
        \<and> resource_policies_of resources_section
            = earlier @ (policy_id', PDict (before @ (n, s) # after)) # later
        \<and> validate_resource_policies (get_valid_policy_ids root {}) earlier = Inr ()
        \<and> policy_id' \<in> get_valid_policy_ids root {}
        \<and> validate_subsections policy_id' (before @ (n, s) # after) before = Inr ()
        \<and> isinstance_str n
        \<and> map_of (before @ (n, s) # after) n = Some s
        \<and> \<not> spec_section_passes s"
  show "is_ValidationError (validate_policy (Inr root) (PDict pol))"
    by (rule reached_malformed_subsection
          [where resources_section = resources_section and earlier = earlier
             and later = later and policy_id' = policy_id' and before = before
             and after = after and n = n and s = s])
       (use a in blast)+
qed

theorem validate_policy_section_shape_witness:
  "validate_policy_section [(KStr ''*'', PDict [(KStr ''allow'', PList [])])] (KStr ''*'')
     [KStr ''resources'', KStr ''*''] = Inr ()
   \<and> is_ValidationError
        (validate_policy_section [(KStr ''*'', PDict [(KStr ''allow'', PInt 1)])] (KStr ''*'')
           [KStr ''resources'', KStr ''*''])
   \<and> is_ValidationError
        (validate_policy get_root_resource
           (PDict [(KStr ''resources'', PDict [(KStr ''*'', PDict [(KStr ''allow'', PInt 1)])])]))
   \<and> validate_policy (Inr example_root) example_accepted_policy = Inr ()
   \<and> spec_section_passes (PDict [(KStr ''block'', PList [])])
   \<and> is_ValidationError
        (validate_policy (Inr example_root)
           (PDict [(KStr ''resources'',
              PDict [(KStr ''good'', PDict [(KStr ''GET'', PDict [(KStr ''allow'', PInt 1)])])])]))"
proof -
  let ?good = "PDict [(KStr ''allow'', PList [])]"
  let ?bad = "PDict [(KStr ''allow'', PInt 1)]"
  let ?star = "PDict [(KStr ''allow'', PList [PStr ''*''])]"
  let ?get = "PDict [(KStr ''block'', PList [])]"
  let ?rs = "[(KStr ''*'', ?star), (KStr ''good'', PDict [(KStr ''GET'', ?get)])]"
  have accepted: "validate_policy (Inr example_root) example_accepted_policy = Inr ()"
    by (simp add: example_accepted_policy_def example_root_def validate_resources_def
        resource_policies_of_def validate_policy_section_def key_in_def)
  note passing = validate_policy_section_shape
    [where parent_section = "[(KStr ''*'', ?good)]" and section_name = "KStr ''*''"
       and section' = "?good" and full_section_name = "[KStr ''resources'', KStr ''*'']"
       and pol = "[(KStr ''resources'', PDict ?rs)]" and resources_section = "?rs"
       and root_resource = "Inr example_root" and policy_id' = "KStr ''good''"
       and d = "[(KStr ''GET'', ?get)]" and subsection_name = "KStr ''GET''"
       and subsection' = "?get" and star = "?star"]
  note failing = validate_policy_section_shape
    [where parent_section = "[(KStr ''*'', ?bad)]" and section_name = "KStr ''*''"
       and section' = "?bad" and full_section_name = "[KStr ''resources'', KStr ''*'']"
       and pol = "[(KStr ''resources'', PDict [(KStr ''*'', ?bad)])]"
       and resources_section = "[(KStr ''*'', ?bad)]"
       and root_resource = get_root_resource and star = "?bad"]
  note reached = validate_policy_section_shape
    [where pol = "[(KStr ''resources'', PDict [(KStr ''good'', PDict [(KStr ''GET'', ?bad)])])]"
       and resources_section = "[(KStr ''good'', PDict [(KStr ''GET'', ?bad)])]"
       and earlier = "[]" and later = "[]" and policy_id' = "KStr ''good''"
       and before = "[]" and after = "[]" and n = "KStr ''GET''" and s = "?bad"
       and root = example_root]
  have ids: "get_valid_policy_ids example_root {} = {KStr ''item'', KStr ''good''}"
    by (simp add: example_root_def)
  have reached': "is_ValidationError
        (validate_policy (Inr example_root)
           (PDict [(KStr ''resources'', PDict [(KStr ''good'', PDict [(KStr ''GET'', ?bad)])])]))"
    using reached ids by (simp add: key_in_def resource_policies_of_def)
  from passing failing accepted reached' show ?thesis
    by (simp add: key_in_def example_accepted_policy_def)
qed

section \<open>Top-level checks of the policy\<close>

text \<open>
  C4: \<open>validate_policy\<close> applied to an empty dict returns without raising, whatever the
  token class; nothing else is checked.
\<close>

theorem validate_policy_empty: "validate_policy root_resource (PDict []) = Inr ()"
  by simp

text \<open>
  C5: \<open>validate_policy\<close> raises \<open>ValidationError\<close> when the policy is not a dict, when it
  is a non-empty dict without a \<open>resources\<close> key, when the value of \<open>resources\<close> is not a
  dict, and when the value of \<open>resources\<close> is an empty dict.
\<close>

theorem validate_policy_top_level_errors:
  "(\<not> isinstance_dict policy' \<longrightarrow>
      validate_policy root_resource policy' = Inl (ValidationError PolicyMustBeObject))
   \<and> (pol \<noteq> [] \<and> \<not> key_in (KStr ''resources'') pol \<longrightarrow>
      validate_policy root_resource (PDict pol) = Inl (ValidationError PolicyMissingResources))
   \<and> (map_of pol (KStr ''resources'') = Some resources_section \<and>
        \<not> isinstance_dict resources_section \<longrightarrow>
      validate_policy root_resource (PDict pol) = Inl (ValidationError ResourcesMustBeObject))
   \<and> (map_of pol (KStr ''resources'') = Some (PDict []) \<longrightarrow>
      validate_policy root_resource (PDict pol) = Inl (ValidationError ResourcesMustNotBeEmpty))"
proof (intro conjI impI)
  assume "\<not> isinstance_dict policy'"
  then show "validate_policy root_resource policy' = Inl (ValidationError PolicyMustBeObject)"
    by (cases policy') simp_all
next
  assume "pol \<noteq> [] \<and> \<not> key_in (KStr ''resources'') pol"
  then show "validate_policy root_resource (PDict pol)
      = Inl (ValidationError PolicyMissingResources)"
    by (auto simp: key_in_def split: option.splits)
next
  assume a: "map_of pol (KStr ''resources'') = Some resources_section \<and>
        \<not> isinstance_dict resources_section"
  then have "pol \<noteq> []" by auto
  with a show "validate_policy root_resource (PDict pol)
      = Inl (ValidationError ResourcesMustBeObject)"
    by (cases resources_section) simp_all
next
  assume a: "map_of pol (KStr ''resources'') = Some (PDict [])"
  then have "pol \<noteq> []" by auto
  with a show "validate_policy root_resource (PDict pol)
      = Inl (ValidationError ResourcesMustNotBeEmpty)"
    by (simp add: validate_resources_def)
qed

theorem validate_policy_top_level_errors_witness:
  "validate_policy get_root_resource (PList []) = Inl (ValidationError PolicyMustBeObject)
   \<and> validate_policy get_root_resource (PDict [(KStr ''other'', PNone)])
       = Inl (ValidationError PolicyMissingResources)
   \<and> validate_policy get_root_resource (PDict [(KStr ''resources'', PList [])])
       = Inl (ValidationError ResourcesMustBeObject)
   \<and> validate_policy get_root_resource (PDict [(KStr ''resources'', PDict [])])
       = Inl (ValidationError ResourcesMustNotBeEmpty)"
  using
    validate_policy_top_level_errors
      [where policy' = "PList []" and root_resource = get_root_resource
         and pol = "[(KStr ''other'', PNone)]" and resources_section = "PList []"]
    validate_policy_top_level_errors
      [where policy' = "PList []" and root_resource = get_root_resource
         and pol = "[(KStr ''resources'', PList [])]" and resources_section = "PList []"]
    validate_policy_top_level_errors
      [where policy' = "PList []" and root_resource = get_root_resource
         and pol = "[(KStr ''resources'', PDict [])]" and resources_section = "PList []"]
  by (simp add: key_in_def)

section \<open>A policy with only the wildcard section\<close>

text \<open>
  C6: when the \<open>resources\<close> section of a non-empty policy has \<open>*\<close> as its only key and
  the value under it passes the shape check, \<open>validate_policy\<close> accepts the policy
  whatever \<open>get_root_resource\<close> would do, so without consulting it or the resource tree;
  it accepts it for \<open>BaseWebAPIToken\<close>, whose \<open>get_root_resource\<close> raises
  \<open>NotImplementedError\<close>.
\<close>

theorem validate_policy_star_only:
  "map_of pol (KStr ''resources'') = Some (PDict resources_section) \<Longrightarrow>
   fst ` set resources_section = {KStr ''*''} \<Longrightarrow>
   validate_policy_section resources_section (KStr ''*'') [KStr ''resources'', KStr ''*'']
     = Inr () \<Longrightarrow>
   validate_policy root_resource (PDict pol) = Inr ()
   \<and> validate_policy get_root_resource (PDict pol) = Inr ()"
proof -
  assume res: "map_of pol (KStr ''resources'') = Some (PDict resources_section)"
    and keys: "fst ` set resources_section = {KStr ''*''}"
    and star: "validate_policy_section resources_section (KStr ''*'')
                 [KStr ''resources'', KStr ''*''] = Inr ()"
  from keys have ne: "resources_section \<noteq> []" by auto
  from keys have "\<forall>item \<in> set resources_section. fst item = KStr ''*''" by auto
  then have none: "resource_policies_of resources_section = []"
    by (auto simp: resource_policies_of_def filter_empty_conv)
  have "validate_resources r resources_section = Inr ()" for r
    using ne none star by (simp add: validate_resources_def)
  then show ?thesis
    by (simp only: policy_with_resources [OF res])
qed

theorem validate_policy_star_only_witness:
  "map_of [(KStr ''resources'', PDict [(KStr ''*'', PDict [(KStr ''allow'', PList [])])])]
     (KStr ''resources'') = Some (PDict [(KStr ''*'', PDict [(KStr ''allow'', PList [])])])
   \<and> fst ` set [(KStr ''*'', PDict [(KStr ''allow'', PList [])])] = {KStr ''*''}
   \<and> validate_policy_section [(KStr ''*'', PDict [(KStr ''allow'', PList [])])] (KStr ''*'')
        [KStr ''resources'', KStr ''*''] = Inr ()
   \<and> validate_policy get_root_resource
        (PDict [(KStr ''resources'', PDict [(KStr ''*'', PDict [(KStr ''allow'', PList [])])])])
      = Inr ()"
  using validate_policy_star_only
    [where pol = "[(KStr ''resources'', PDict [(KStr ''*'', PDict [(KStr ''allow'', PList [])])])]"
       and resources_section = "[(KStr ''*'', PDict [(KStr ''allow'', PList [])])]"
       and root_resource = get_root_resource]
  by (simp add: validate_policy_section_def key_in_def)

section \<open>The exceptions that leave the validator\<close>

lemma subsections_return_or_ValidationError:
  assumes "set items \<subseteq> set section"
  shows "validate_subsections policy_id' section items = Inr ()
         \<or> is_ValidationError (validate_subsections policy_id' section items)"
  using assms
proof (induction items)
  case Nil
  then show ?case by simp
next
  case (Cons item items)
  obtain n s where item: "item = (n, s)" by (cases item)
  with Cons.prems have "(n, s) \<in> set section" by simp
  then have "map_of section n \<noteq> None"
    by (metis map_of_eq_None_iff fst_conv image_eqI)
  then obtain s' where "map_of section n = Some s'" by auto
  from section_returns_or_ValidationError [OF this, of "[KStr ''resources'', policy_id', n]"]
  have here: "validate_policy_section section n [KStr ''resources'', policy_id', n] = Inr ()
      \<or> is_ValidationError
           (validate_policy_section section n [KStr ''resources'', policy_id', n])" .
  from Cons have rest: "validate_subsections policy_id' section items = Inr ()
      \<or> is_ValidationError (validate_subsections policy_id' section items)"
    by simp
  from here rest item show ?case
    by (auto split: sum.splits elim: is_ValidationError.elims)
qed

lemma not_valid_policy_id_message_formats:
  assumes "case k of KTuple ks \<Rightarrow> length ks = 1 | other \<Rightarrow> True"
  shows "\<exists>m. not_valid_policy_id_message k = Inr m"
proof (cases k)
  case (KTuple ks)
  with assms obtain k' where "ks = [k']"
    by (cases ks) auto
  with KTuple show ?thesis by simp
qed simp_all

lemma resource_policies_return_or_ValidationError:
  assumes "list_all
             (\<lambda>(policy_id', section).
                if policy_id' \<in> valid_policy_ids then isinstance_dict section
                else (case policy_id' of KTuple ks \<Rightarrow> length ks = 1 | other \<Rightarrow> True))
             rps"
  shows "validate_resource_policies valid_policy_ids rps = Inr ()
         \<or> is_ValidationError (validate_resource_policies valid_policy_ids rps)"
  using assms
proof (induction rps)
  case Nil
  then show ?case by simp
next
  case (Cons rp rps)
  obtain k sec where rp: "rp = (k, sec)" by (cases rp)
  show ?case
  proof (cases "k \<in> valid_policy_ids")
    case False
    with Cons.prems rp
    have "case k of KTuple ks \<Rightarrow> length ks = 1 | other \<Rightarrow> True" by simp
    then obtain m where "not_valid_policy_id_message k = Inr m"
      using not_valid_policy_id_message_formats by blast
    with False rp show ?thesis by simp
  next
    case True
    with Cons.prems rp obtain d where d: "sec = PDict d" by (cases sec) auto
    have here: "validate_subsections k d d = Inr ()
        \<or> is_ValidationError (validate_subsections k d d)"
      by (rule subsections_return_or_ValidationError) simp
    from Cons have rest: "validate_resource_policies valid_policy_ids rps = Inr ()
        \<or> is_ValidationError (validate_resource_policies valid_policy_ids rps)"
      by simp
    from here rest rp d True show ?thesis
      by (auto split: sum.splits elim: is_ValidationError.elims)
  qed
qed

lemma resources_return_or_ValidationError:
  assumes "\<And>root. root_resource = Inr root \<Longrightarrow>
             list_all
               (\<lambda>(policy_id', section).
                  if policy_id' \<in> get_valid_policy_ids root {} then isinstance_dict section
                  else (case policy_id' of KTuple ks \<Rightarrow> length ks = 1 | other \<Rightarrow> True))
               (resource_policies_of resources_section)"
  shows "validate_resources root_resource resources_section = Inr ()
         \<or> is_ValidationError (validate_resources root_resource resources_section)
         \<or> (\<exists>e. root_resource = Inl e
               \<and> validate_resources root_resource resources_section = Inl e)"
proof (cases "resources_section = []")
  case True
  then show ?thesis by (simp add: validate_resources_def)
next
  case ne: False
  let ?star = "validate_policy_section resources_section (KStr ''*'')
                 [KStr ''resources'', KStr ''*'']"
  have star: "key_in (KStr ''*'') resources_section \<Longrightarrow>
      ?star = Inr () \<or> is_ValidationError ?star"
  proof -
    assume "key_in (KStr ''*'') resources_section"
    then obtain s where "map_of resources_section (KStr ''*'') = Some s"
      by (auto simp: key_in_def split: option.splits)
    then show ?thesis by (rule section_returns_or_ValidationError)
  qed
  show ?thesis
  proof (cases "key_in (KStr ''*'') resources_section \<and> ?star \<noteq> Inr ()")
    case True
    with star obtain m where "?star = Inl (ValidationError m)"
      by (auto elim: is_ValidationError.elims)
    with True ne show ?thesis by (simp add: validate_resources_def)
  next
    case passed: False
    show ?thesis
    proof (cases "resource_policies_of resources_section = []")
      case True
      with passed ne show ?thesis by (auto simp: validate_resources_def)
    next
      case named: False
      show ?thesis
      proof (cases root_resource)
        case (Inl e)
        with passed ne named show ?thesis by (auto simp: validate_resources_def)
      next
        case (Inr root)
        from resource_policies_return_or_ValidationError [OF assms [OF Inr]]
        have "validate_resource_policies (get_valid_policy_ids root {})
                (resource_policies_of resources_section) = Inr ()
              \<or> is_ValidationError
                   (validate_resource_policies (get_valid_policy_ids root {})
                      (resource_policies_of resources_section))" .
        with Inr passed ne named show ?thesis by (auto simp: validate_resources_def)
      qed
    qed
  qed
qed

text \<open>
  With the \<open>get_root_resource\<close> of \<open>BaseWebAPIToken\<close>, a policy that names a resource
  makes \<open>validate_policy\<close> raise \<open>NotImplementedError\<close>: it neither returns normally
  nor raises \<open>ValidationError\<close>.
\<close>

theorem validate_policy_not_implemented_counterexample:
  "validate_policy get_root_resource
     (PDict [(KStr ''resources'', PDict [(KStr ''users'', PDict [])])])
   = Inl NotImplementedError
   \<and> validate_policy get_root_resource
       (PDict [(KStr ''resources'', PDict [(KStr ''users'', PDict [])])])
     \<noteq> Inr ()
   \<and> \<not> is_ValidationError
         (validate_policy get_root_resource
            (PDict [(KStr ''resources'', PDict [(KStr ''users'', PDict [])])]))"
  by (simp add: validate_resources_def resource_policies_of_def key_in_def
      get_root_resource_def)

text \<open>
  C2, amended: \<open>validate_policy\<close> returns normally, or raises \<open>ValidationError\<close>, or
  lets the exception escape that \<open>get_root_resource\<close> itself raised, which can happen only
  for a token class whose \<open>get_root_resource\<close> raises, as that of \<open>BaseWebAPIToken\<close>
  does. This holds for every input value, provided that, when \<open>get_root_resource\<close> returns
  a root, each resource policy stored under a valid policy ID is a dict and each other
  key of the \<open>resources\<close> section besides \<open>*\<close> is not a tuple of a length other than one.
\<close>

theorem validate_policy_escaping_errors:
  "resource_policies_typed root_resource policy' \<Longrightarrow>
     validate_policy root_resource policy' = Inr ()
     \<or> is_ValidationError (validate_policy root_resource policy')
     \<or> (\<exists>e. root_resource = Inl e \<and> validate_policy root_resource policy' = Inl e)"
proof (cases policy')
  case (PDict pol)
  assume typed: "resource_policies_typed root_resource policy'"
  show ?thesis
  proof (cases "map_of pol (KStr ''resources'')")
    case None
    with PDict show ?thesis by simp
  next
    case (Some v)
    show ?thesis
    proof (cases "isinstance_dict v")
      case False
      with Some PDict show ?thesis by (cases v) auto
    next
      case True
      then obtain resources_section where v: "v = PDict resources_section"
        by (cases v) auto
      with Some have res: "map_of pol (KStr ''resources'') = Some (PDict resources_section)"
        by simp
      have "list_all
              (\<lambda>(policy_id', section).
                 if policy_id' \<in> get_valid_policy_ids root {} then isinstance_dict section
                 else (case policy_id' of KTuple ks \<Rightarrow> length ks = 1 | other \<Rightarrow> True))
              (resource_policies_of resources_section)"
        if "root_resource = Inr root" for root
        using typed PDict res that by simp
      from resources_return_or_ValidationError [OF this, of root_resource]
      show ?thesis
        by (simp only: PDict policy_with_resources [OF res])
    qed
  qed
qed simp_all

theorem validate_policy_escaping_errors_witness:
  "resource_policies_typed (Inr example_root) example_accepted_policy
   \<and> validate_policy (Inr example_root) example_accepted_policy = Inr ()
   \<and> resource_policies_typed (Inr example_root)
        (PDict [(KStr ''resources'', PDict [(KStr ''bad'', PInt 5)])])
   \<and> validate_policy (Inr example_root)
        (PDict [(KStr ''resources'', PDict [(KStr ''bad'', PInt 5)])])
      = Inl (ValidationError (NotValidPolicyId (KStr ''bad'')))
   \<and> resource_policies_typed get_root_resource example_accepted_policy
   \<and> validate_policy get_root_resource example_accepted_policy = Inl NotImplementedError"
  using
    validate_policy_escaping_errors
      [where policy' = example_accepted_policy and root_resource = "Inr example_root"]
    validate_policy_escaping_errors
      [where policy' = "PDict [(KStr ''resources'', PDict [(KStr ''bad'', PInt 5)])]"
         and root_resource = "Inr example_root"]
    validate_policy_escaping_errors
      [where policy' = example_accepted_policy and root_resource = get_root_resource]
  by (simp add: example_accepted_policy_def example_root_def validate_resources_def
      resource_policies_of_def validate_policy_section_def key_in_def get_root_resource_def)

text \<open>
  The inputs outside the theorem above. A resource policy under a valid policy ID that
  is not a dict has \<open>items()\<close> called on it, and \<open>AttributeError\<close> leaves
  \<open>validate_policy\<close>. A key that is no policy ID and is a tuple of two elements cannot be
  formatted into the message, and \<open>TypeError\<close> leaves \<open>validate_policy\<close>; a tuple of one
  element is formatted as its element, so the message names another key.
\<close>

lemma validate_policy_attribute_error:
  "validate_policy (Inr example_root)
     (PDict [(KStr ''resources'', PDict [(KStr ''good'', PInt 5)])])
   = Inl AttributeError"
  by (simp add: validate_resources_def resource_policies_of_def key_in_def example_root_def)

lemma validate_policy_type_error:
  "validate_policy (Inr example_root)
     (PDict [(KStr ''resources'', PDict [(KTuple [KInt 1, KInt 2], PDict [])])])
   = Inl TypeError"
  by (simp add: validate_resources_def resource_policies_of_def key_in_def example_root_def)

lemma validate_policy_one_tuple_message:
  "validate_policy (Inr example_root)
     (PDict [(KStr ''resources'', PDict [(KTuple [KStr ''bad''], PDict [])])])
   = Inl (ValidationError (NotValidPolicyId (KStr ''bad'')))"
  by (simp add: validate_resources_def resource_policies_of_def key_in_def example_root_def)

section \<open>Resource policy IDs\<close>

lemma reachable_trans:
  assumes "reachable c x" and "reachable root c"
  shows "reachable root x"
  using assms
  by (induction rule: reachable.induct) (auto intro: reachable.intros)

lemma reachable_cases:
  assumes "reachable root x"
  shows "x = root
         \<or> (\<exists>c \<in> set (list_child_resources root) \<union> set (item_child_resources root).
              reachable c x)"
  using assms
proof (induction rule: reachable.induct)
  case root
  then show ?case by simp
next
  case (list_child r c)
  then show ?case
    by (metis UnI1 reachable.list_child reachable.root)
next
  case (item_child r c)
  then show ?case
    by (metis UnI2 reachable.item_child reachable.root)
qed

lemma reachable_child:
  assumes "c \<in> set (list_child_resources root) \<union> set (item_child_resources root)"
    and "reachable c x"
  shows "reachable root x"
proof -
  from assms(1) have "reachable root c"
    by (auto intro: reachable.intros)
  with assms(2) show ?thesis by (rule reachable_trans)
qed

lemma spec_valid_policy_ids_Resource:
  "spec_valid_policy_ids (Resource pid list_children item_children) =
     (case pid of None \<Rightarrow> {} | Some p \<Rightarrow> {p})
     \<union> (\<Union>c \<in> set list_children. spec_valid_policy_ids c)
     \<union> (\<Union>c \<in> set item_children. spec_valid_policy_ids c)"
  (is "?L = ?R")
proof (rule set_eqI)
  fix p
  let ?root = "Resource pid list_children item_children"
  show "p \<in> ?L \<longleftrightarrow> p \<in> ?R"
  proof
    assume "p \<in> ?L"
    then obtain r where r: "reachable ?root r" "policy_id r = Some p"
      by (auto simp: spec_valid_policy_ids_def)
    from reachable_cases [OF r(1)] r(2) show "p \<in> ?R"
      by (auto simp: spec_valid_policy_ids_def)
  next
    assume "p \<in> ?R"
    then consider "pid = Some p"
      | c where "c \<in> set list_children \<union> set item_children" "p \<in> spec_valid_policy_ids c"
      by (auto split: option.splits)
    then show "p \<in> ?L"
    proof cases
      case 1
      have "reachable ?root ?root" by (rule reachable.root)
      with 1 show ?thesis by (auto simp: spec_valid_policy_ids_def)
    next
      case 2
      then obtain r where "reachable c r" "policy_id r = Some p"
        by (auto simp: spec_valid_policy_ids_def)
      with 2(1) reachable_child [of c ?root r] show ?thesis
        by (auto simp: spec_valid_policy_ids_def)
    qed
  qed
qed

lemma fold_get_valid_policy_ids:
  assumes "\<And>c acc. c \<in> set cs \<Longrightarrow>
             get_valid_policy_ids c acc = acc \<union> spec_valid_policy_ids c"
  shows "fold get_valid_policy_ids cs result
           = result \<union> (\<Union>c \<in> set cs. spec_valid_policy_ids c)"
  using assms
  by (induction cs arbitrary: result) auto

lemma get_valid_policy_ids_acc:
  "get_valid_policy_ids r result = result \<union> spec_valid_policy_ids r"
proof (induction r arbitrary: result)
  case (Resource pid list_children item_children)
  have l: "fold get_valid_policy_ids list_children acc
             = acc \<union> (\<Union>c \<in> set list_children. spec_valid_policy_ids c)" for acc
    by (rule fold_get_valid_policy_ids) (rule Resource.IH(1))
  have i: "fold get_valid_policy_ids item_children acc
             = acc \<union> (\<Union>c \<in> set item_children. spec_valid_policy_ids c)" for acc
    by (rule fold_get_valid_policy_ids) (rule Resource.IH(2))
  show ?case
    by (cases pid) (auto simp: l i spec_valid_policy_ids_Resource)
qed

lemma not_valid_policy_id_message_plain:
  "\<not> isinstance_tuple k \<Longrightarrow> not_valid_policy_id_message k = Inr (NotValidPolicyId k)"
  by (cases k) simp_all

lemma resource_policies_first_invalid:
  assumes "validate_resource_policies valid_policy_ids before = Inr ()"
    and "policy_id' \<notin> valid_policy_ids"
    and "\<not> isinstance_tuple policy_id'"
  shows "validate_resource_policies valid_policy_ids (before @ (policy_id', section) # after)
           = Inl (ValidationError (NotValidPolicyId policy_id'))"
  using assms
proof (induction before)
  case Nil
  then show ?case by (simp add: not_valid_policy_id_message_plain)
next
  case (Cons rp before)
  obtain k sec where rp: "rp = (k, sec)" by (cases rp)
  from Cons.prems(1) rp have valid: "k \<in> valid_policy_ids"
    by (auto split: if_splits sum.splits)
  with Cons.prems(1) rp obtain d where d: "sec = PDict d"
    by (cases sec) auto
  with Cons.prems(1) rp valid
  have here: "validate_subsections k d d = Inr ()"
    and rest: "validate_resource_policies valid_policy_ids before = Inr ()"
    by (auto split: sum.splits)
  from Cons.IH [OF rest Cons.prems(2) Cons.prems(3)] rp valid d here show ?case by simp
qed

text \<open>
  The loop over the resource policies checks them in order and stops at the first
  failure, and the \<open>*\<close> section is checked before the loop. So the error raised is not
  the one for the first key that is no policy ID when the subsections of an earlier
  resource policy are malformed, or when the \<open>*\<close> section is.
\<close>

theorem validate_policy_first_invalid_id_counterexample:
  "validate_policy (Inr example_root)
     (PDict [(KStr ''resources'',
        PDict [(KStr ''good'', PDict [(KStr ''GET'', PInt 5)]),
               (KStr ''bad'', PDict [(KStr ''allow'', PList [])])])])
   = Inl (ValidationError
            (SectionMustBeObject [KStr ''resources'', KStr ''good'', KStr ''GET'']))
   \<and> validate_policy (Inr example_root)
       (PDict [(KStr ''resources'',
          PDict [(KStr ''good'', PDict [(KStr ''GET'', PInt 5)]),
                 (KStr ''bad'', PDict [(KStr ''allow'', PList [])])])])
     \<noteq> Inl (ValidationError (NotValidPolicyId (KStr ''bad'')))
   \<and> validate_policy (Inr example_root)
       (PDict [(KStr ''resources'',
          PDict [(KStr ''*'', PInt 5), (KStr ''bad'', PDict [(KStr ''allow'', PList [])])])])
     = Inl (ValidationError (SectionMustBeObject [KStr ''resources'', KStr ''*'']))
   \<and> KStr ''bad'' \<notin> get_valid_policy_ids example_root {}"
  by (simp add: validate_resources_def resource_policies_of_def key_in_def example_root_def
      validate_policy_section_def)

text \<open>
  C3, amended: take a policy dict whose \<open>resources\<close> section has a key other than \<open>*\<close>,
  a token class whose \<open>get_root_resource\<close> returns a root, a \<open>*\<close> section that passes
  its check if there is one, and the first key other than \<open>*\<close> that is not the
  \<open>policy_id\<close> of a resource reachable from the root through \<open>list_child_resources\<close>
  and \<open>item_child_resources\<close>. If the resource policies before that key pass
  validation and that key is not a tuple, \<open>validate_policy\<close> raises the
  \<open>ValidationError\<close> saying that this key is not a valid resource policy ID.
  \<open>_get_valid_policy_ids\<close> computes exactly the set of the \<open>policy_id\<close> attributes of the
  resources so reachable that have one.
\<close>

theorem validate_policy_first_invalid_id:
  "(map_of pol (KStr ''resources'') = Some (PDict resources_section)
      \<and> (key_in (KStr ''*'') resources_section \<longrightarrow>
           validate_policy_section resources_section (KStr ''*'')
             [KStr ''resources'', KStr ''*''] = Inr ())
      \<and> resource_policies_of resources_section = before @ (policy_id', section') # after
      \<and> validate_resource_policies (spec_valid_policy_ids root) before = Inr ()
      \<and> policy_id' \<notin> spec_valid_policy_ids root
      \<and> \<not> isinstance_tuple policy_id'
    \<longrightarrow> validate_policy (Inr root) (PDict pol)
          = Inl (ValidationError (NotValidPolicyId policy_id')))
   \<and> get_valid_policy_ids root {} = spec_valid_policy_ids root"
proof (intro conjI impI)
  show ids: "get_valid_policy_ids root {} = spec_valid_policy_ids root"
    by (simp add: get_valid_policy_ids_acc)
  assume a: "map_of pol (KStr ''resources'') = Some (PDict resources_section)
      \<and> (key_in (KStr ''*'') resources_section \<longrightarrow>
           validate_policy_section resources_section (KStr ''*'')
             [KStr ''resources'', KStr ''*''] = Inr ())
      \<and> resource_policies_of resources_section = before @ (policy_id', section') # after
      \<and> validate_resource_policies (spec_valid_policy_ids root) before = Inr ()
      \<and> policy_id' \<notin> spec_valid_policy_ids root
      \<and> \<not> isinstance_tuple policy_id'"
  then have res: "map_of pol (KStr ''resources'') = Some (PDict resources_section)"
    by simp
  from a have rps: "resource_policies_of resources_section
      = before @ (policy_id', section') # after"
    by simp
  then have named: "resource_policies_of resources_section \<noteq> []" by simp
  then have ne: "resources_section \<noteq> []"
    by (auto simp: resource_policies_of_def)
  from a have "validate_resource_policies (spec_valid_policy_ids root)
      (before @ (policy_id', section') # after)
      = Inl (ValidationError (NotValidPolicyId policy_id'))"
    by (intro resource_policies_first_invalid) simp_all
  with rps ids
  have loop: "validate_resource_policies (get_valid_policy_ids root {})
      (resource_policies_of resources_section)
      = Inl (ValidationError (NotValidPolicyId policy_id'))"
    by simp
  from a have star: "(if key_in (KStr ''*'') resources_section
       then validate_policy_section resources_section (KStr ''*'')
              [KStr ''resources'', KStr ''*'']
       else Inr ()) = Inr ()"
    by auto
  have "validate_resources (Inr root) resources_section
      = Inl (ValidationError (NotValidPolicyId policy_id'))"
    unfolding validate_resources_def star using ne named loop
    by simp
  then show "validate_policy (Inr root) (PDict pol)
      = Inl (ValidationError (NotValidPolicyId policy_id'))"
    by (simp only: policy_with_resources [OF res])
qed

theorem validate_policy_first_invalid_id_witness:
  "resource_policies_of example_resources_section =
     [(KStr ''good'', PDict [(KStr ''GET'', PDict [(KStr ''block'', PList [])])])]
     @ (KStr ''bad'', PDict []) # [(KStr ''worse'', PInt 0)]
   \<and> validate_resource_policies (spec_valid_policy_ids example_root)
        [(KStr ''good'', PDict [(KStr ''GET'', PDict [(KStr ''block'', PList [])])])] = Inr ()
   \<and> KStr ''bad'' \<notin> spec_valid_policy_ids example_root
   \<and> \<not> isinstance_tuple (KStr ''bad'')
   \<and> validate_policy (Inr example_root)
        (PDict [(KStr ''resources'', PDict example_resources_section)])
      = Inl (ValidationError (NotValidPolicyId (KStr ''bad'')))
   \<and> spec_valid_policy_ids example_root = {KStr ''good'', KStr ''item''}"
proof -
  let ?before = "[(KStr ''good'', PDict [(KStr ''GET'', PDict [(KStr ''block'', PList [])])])]"
  note inst = validate_policy_first_invalid_id
    [where pol = "[(KStr ''resources'', PDict example_resources_section)]"
       and resources_section = example_resources_section
       and before = "?before" and policy_id' = "KStr ''bad''" and section' = "PDict []"
       and after = "[(KStr ''worse'', PInt 0)]" and root = example_root]
  have computed: "get_valid_policy_ids example_root {} = {KStr ''good'', KStr ''item''}"
    by (auto simp: example_root_def)
  with inst have ids: "spec_valid_policy_ids example_root = {KStr ''good'', KStr ''item''}"
    by simp
  have split: "resource_policies_of example_resources_section =
      ?before @ (KStr ''bad'', PDict []) # [(KStr ''worse'', PInt 0)]"
    by (simp add: resource_policies_of_def example_resources_section_def)
  have star: "validate_policy_section example_resources_section (KStr ''*'')
      [KStr ''resources'', KStr ''*''] = Inr ()"
    by (simp add: validate_policy_section_def example_resources_section_def key_in_def)
  have before: "validate_resource_policies {KStr ''good'', KStr ''item''} ?before = Inr ()"
    by (simp add: validate_policy_section_def key_in_def)
  from inst ids split star before show ?thesis
    by simp
qed

section \<open>Overriding the message and headers of an error\<close>

text \<open>
  C7: \<open>with_overrides\<close> returns a new \<open>WebAPIError\<close> whose \<open>code\<close> and \<open>http_status\<close> are
  those of the receiver, whose \<open>msg\<close> is the given one when that is truthy and the
  receiver's otherwise, and whose \<open>headers\<close> are the given ones when they are not \<open>None\<close>
  and the receiver's otherwise. The receiver and every other object that existed keep
  their fields, and \<open>with_message(msg)\<close> returns what \<open>with_overrides(msg)\<close> returns.
\<close>

theorem with_overrides_spec:
  "self < length h \<Longrightarrow>
     (case with_overrides h self msg' headers' of
        (h', new) \<Rightarrow>
          new = length h \<and> length h' = Suc (length h)
          \<and> code (h' ! new) = code (h ! self)
          \<and> http_status (h' ! new) = http_status (h ! self)
          \<and> msg (h' ! new) =
              (case msg' of None \<Rightarrow> msg (h ! self)
               | Some m \<Rightarrow> if m \<noteq> [] then m else msg (h ! self))
          \<and> headers (h' ! new) =
              (case headers' of None \<Rightarrow> headers (h ! self) | Some hs \<Rightarrow> hs)
          \<and> take (length h) h' = h
          \<and> h' ! self = h ! self)
     \<and> with_message h self msg' = with_overrides h self msg' None"
  by (simp add: with_overrides_def with_message_def new_WebAPIError_def WebAPIError_init_def
      msg_or_def nth_append split: option.splits)

theorem with_overrides_spec_witness:
  "(0::nat) < length example_heap
   \<and> with_overrides example_heap 0 (Some ''No such extension'') None
      = (example_heap @ [\<lparr>code = 107, msg = ''No such extension'',
            http_status = 500, headers = HeadersDict []\<rparr>], 1)
   \<and> fst (with_overrides example_heap 0 (Some ''No such extension'') None) ! 0
      = example_heap ! 0
   \<and> with_message example_heap 0 (Some ''No such extension'')
      = with_overrides example_heap 0 (Some ''No such extension'') None"
  using with_overrides_spec [where h = example_heap and self = 0
      and msg' = "Some ''No such extension''" and headers' = None]
  by (simp add: example_heap_def with_overrides_def new_WebAPIError_def WebAPIError_init_def
      msg_or_def)

section \<open>Token permissions and expiry\<close>

text \<open>
  C8: for every token and every user the predicates \<open>is_accessible_by\<close>,
  \<open>is_mutable_by\<close> and \<open>is_deletable_by\<close> return the same value, which is true exactly
  when the user is a superuser or is the user owning the token.
\<close>

theorem permission_predicates_agree:
  "is_accessible_by self user' = is_mutable_by self user'
   \<and> is_mutable_by self user' = is_deletable_by self user'
   \<and> is_accessible_by self user' = (is_superuser user' \<or> user_eq (user self) user')"
  by (simp add: is_accessible_by_def is_mutable_by_def is_deletable_by_def)

text \<open>
  C9: \<open>is_expired\<close> is false when \<open>expires\<close> is \<open>None\<close>; otherwise it is true exactly
  when the current time is greater than or equal to \<open>expires\<close>, so a token is expired at
  the instant of its expiration.
\<close>

theorem is_expired_spec:
  "(expires self = None \<longrightarrow> \<not> is_expired now self)
   \<and> (expires self = Some e \<longrightarrow> is_expired now self = (e \<le> now))
   \<and> (expires self = Some now \<longrightarrow> is_expired now self)"
  by (simp add: is_expired_def)

theorem is_expired_spec_witness:
  "\<not> is_expired 100 (example_token\<lparr>expires := None\<rparr>)
   \<and> \<not> is_expired 99 example_token
   \<and> is_expired 100 example_token
   \<and> is_expired 101 example_token"
  using
    is_expired_spec [where self = "example_token\<lparr>expires := None\<rparr>" and now = 100 and e = 100]
    is_expired_spec [where self = example_token and now = 99 and e = 100]
    is_expired_spec [where self = example_token and now = 100 and e = 100]
    is_expired_spec [where self = example_token and now = 101 and e = 100]
  by (simp add: example_token_def)

section \<open>Saving a token\<close>

lemma save_super_raises:
  "super_save self = Inl e \<Longrightarrow> save super_save self = ([], Inl e)"
  by (simp add: save_def)

text \<open>
  C10: when the \<open>save\<close> of the superclass returns, \<open>save\<close> sends the signal
  \<open>webapi_token_updated\<close> after it exactly when the token had a primary key before the
  call; on the first save of a new token, whose primary key was \<open>None\<close>, no such signal
  is sent.
\<close>

theorem save_signal_iff_update:
  "super_save self = Inr saved \<Longrightarrow>
     fst (save super_save self) =
       SuperSave saved # (if pk self = None then [] else [WebapiTokenUpdatedSend saved])
     \<and> ((\<exists>t. WebapiTokenUpdatedSend t \<in> set (fst (save super_save self))) = (pk self \<noteq> None))
     \<and> snd (save super_save self) = Inr saved"
  by (auto simp: save_def)

theorem save_signal_iff_update_witness:
  "example_super_save example_token = Inr example_token
   \<and> fst (save example_super_save example_token)
       = [SuperSave example_token, WebapiTokenUpdatedSend example_token]
   \<and> example_super_save (example_token\<lparr>pk := None\<rparr>) = Inr (example_token\<lparr>pk := Some 1\<rparr>)
   \<and> fst (save example_super_save (example_token\<lparr>pk := None\<rparr>))
       = [SuperSave (example_token\<lparr>pk := Some 1\<rparr>)]"
  using
    save_signal_iff_update [where super_save = example_super_save and self = example_token
      and saved = example_token]
    save_signal_iff_update [where super_save = example_super_save
      and self = "example_token\<lparr>pk := None\<rparr>" and saved = "example_token\<lparr>pk := Some 1\<rparr>"]
  by (simp add: example_super_save_def example_token_def)

end
